theory Spec2Isabelle
  imports Main "HOL-Library.Word"
begin

section \<open>Python values\<close>

text \<open>
  The errors the modelled code can raise.  Python exceptions and the runtime's status
  errors are values of one datatype; a function that can raise returns
  \<open>error + 'a\<close>, with \<open>Inl\<close> for the exception.
\<close>

datatype error =
    IndexError
  | ValueError
  | OSError
  | InvalidArgumentError
  | FailedPreconditionError
  | OutOfRangeError

text \<open>
  Subscription \<open>xs[i]\<close> of a Python list by an integer: an index below zero counts
  from the end, and an index outside \<open>-len(xs) .. len(xs) - 1\<close> raises IndexError.
\<close>

definition in_range :: "'a list \<Rightarrow> int \<Rightarrow> bool" where
  "in_range xs i \<longleftrightarrow> - int (length xs) \<le> i \<and> i < int (length xs)"

definition getitem :: "'a list \<Rightarrow> int \<Rightarrow> error + 'a" where
  "getitem xs i =
     (if in_range xs i
      then Inr (xs ! nat (if i < 0 then i + int (length xs) else i))
      else Inl IndexError)"

section \<open>Decoding: \<open>map_to_chars\<close>\<close>

text \<open>
  The inner loop of \<open>map_to_chars\<close>, over the ids of one line.  Its state is the text
  built so far and \<open>previous_char\<close>.  The three ways an iteration ends are the three
  branches: the \<open>continue\<close> of the merge check (state untouched), the \<open>continue\<close> of
  the blank check (only \<open>previous_char\<close> updated), and the append of \<open>table[char_index]\<close>.
  The table is a Python list of strings, one per id.
\<close>

fun chars_loop :: "'c list list \<Rightarrow> int \<Rightarrow> bool \<Rightarrow> 'c list \<Rightarrow> int \<Rightarrow> int list \<Rightarrow> error + 'c list" where
  "chars_loop table blank_index merge_repeated text previous_char [] = Inr text"
| "chars_loop table blank_index merge_repeated text previous_char (char_index # line) =
     (if merge_repeated \<and> char_index = previous_char
      then chars_loop table blank_index merge_repeated text previous_char line
      else if char_index = blank_index
      then chars_loop table blank_index merge_repeated text char_index line
      else (case getitem table char_index of
              Inl e \<Rightarrow> Inl e
            | Inr s \<Rightarrow> chars_loop table blank_index merge_repeated (text @ s) char_index line))"

text \<open>
  The outer loop: every line starts from the empty text and \<open>previous_char = -1\<close>, and
  its text is appended to \<open>lines\<close>.
\<close>

fun lines_loop :: "'c list list \<Rightarrow> int \<Rightarrow> bool \<Rightarrow> 'c list list \<Rightarrow> int list list \<Rightarrow> error + 'c list list" where
  "lines_loop table blank_index merge_repeated lines [] = Inr lines"
| "lines_loop table blank_index merge_repeated lines (line # inputs) =
     (case chars_loop table blank_index merge_repeated [] (- 1) line of
        Inl e \<Rightarrow> Inl e
      | Inr text \<Rightarrow> lines_loop table blank_index merge_repeated (lines @ [text]) inputs)"

definition map_to_chars :: "int list list \<Rightarrow> 'c list list \<Rightarrow> int \<Rightarrow> bool \<Rightarrow> error + 'c list list" where
  "map_to_chars inputs table blank_index merge_repeated =
     lines_loop table blank_index merge_repeated [] inputs"

section \<open>Scoring: \<open>map_and_count\<close>\<close>

text \<open>
  The two integer element types that occur: the labels are 32-bit, the ids of the lookup
  table and of the CTC decoder 64-bit.  A Python integer that becomes a tensor of one of
  these types must fit into 64 bits, otherwise the conversion raises; a value that fits
  into 64 but not into 32 bits is wrapped around when the element type is 32-bit.
\<close>

datatype dtype = DT_INT32 | DT_INT64

definition cast_int32 :: "int \<Rightarrow> int" where
  "cast_int32 v = sint (word_of_int v :: 32 word)"

definition in_int64 :: "int \<Rightarrow> bool" where
  "in_int64 v \<longleftrightarrow> - (2 ^ 63) \<le> v \<and> v < 2 ^ 63"

definition convert_to_tensor :: "dtype \<Rightarrow> int \<Rightarrow> error + int" where
  "convert_to_tensor dt v =
     (if in_int64 v
      then Inr (case dt of DT_INT32 \<Rightarrow> cast_int32 v | DT_INT64 \<Rightarrow> v)
      else Inl ValueError)"

text \<open>
  A rank-2 sparse tensor of the runtime: the list of (row, column) positions that hold a
  value, the values in the same order, the dense shape (rows, columns), and the element
  type.
\<close>

record sparse_tensor =
  indices :: "(nat \<times> nat) list"
  vals :: "int list"
  dense_shape :: "nat \<times> nat"
  dtype :: dtype

text \<open>
  \<open>tf.sparse.to_dense(sp, default_value)\<close>: the default value is first converted to
  the element type of the sparse tensor.  Then, with the default validation of the
  indices, they must lie inside the dense shape and be in strictly increasing
  lexicographic order (no repeats), one value per index; otherwise the call raises.
  Every position without a stored value holds the converted default value.
\<close>

definition index_less :: "nat \<times> nat \<Rightarrow> nat \<times> nat \<Rightarrow> bool" where
  "index_less p q \<longleftrightarrow> fst p < fst q \<or> (fst p = fst q \<and> snd p < snd q)"

definition valid_indices :: "sparse_tensor \<Rightarrow> bool" where
  "valid_indices sp \<longleftrightarrow>
     length (indices sp) = length (vals sp)
     \<and> list_all (\<lambda>p. fst p < fst (dense_shape sp) \<and> snd p < snd (dense_shape sp)) (indices sp)
     \<and> sorted_wrt index_less (indices sp)"

definition to_dense :: "sparse_tensor \<Rightarrow> int \<Rightarrow> error + int list list" where
  "to_dense sp default_value =
     (case convert_to_tensor (dtype sp) default_value of
        Inl e \<Rightarrow> Inl e
      | Inr fill \<Rightarrow>
          if valid_indices sp
          then Inr (map (\<lambda>i. map (\<lambda>j. case map_of (zip (indices sp) (vals sp)) (i, j) of
                                        None \<Rightarrow> fill
                                      | Some v \<Rightarrow> v)
                              [0 ..< snd (dense_shape sp)])
                    [0 ..< fst (dense_shape sp)])
          else Inl InvalidArgumentError)"

text \<open>
  The counting loop of \<open>map_and_count\<close> over \<open>zip(decoded, Y)\<close>, and the function
  itself.  \<open>decoded\<close> is the list of sparse tensors returned by the CTC decoder, of which
  the first is used; every step that can raise passes its error on.
\<close>

fun count_loop :: "int \<Rightarrow> ('a \<times> 'a) list \<Rightarrow> int" where
  "count_loop count [] = count"
| "count_loop count ((y_pred, y) # pairs) =
     count_loop (if y_pred = y then count + 1 else count) pairs"

definition map_and_count ::
  "sparse_tensor list \<Rightarrow> sparse_tensor \<Rightarrow> 'c list list \<Rightarrow> int \<Rightarrow> bool \<Rightarrow> error + int" where
  "map_and_count decoded Y mapper blank_index merge_repeated =
     (case getitem decoded 0 of Inl e \<Rightarrow> Inl e | Inr decoded0 \<Rightarrow>
      case to_dense decoded0 blank_index of Inl e \<Rightarrow> Inl e | Inr decoded_dense \<Rightarrow>
      case to_dense Y blank_index of Inl e \<Rightarrow> Inl e | Inr Y_dense \<Rightarrow>
      case map_to_chars decoded_dense mapper blank_index merge_repeated of Inl e \<Rightarrow> Inl e | Inr decoded_chars \<Rightarrow>
      case map_to_chars Y_dense mapper blank_index merge_repeated of Inl e \<Rightarrow> Inl e | Inr Y_chars \<Rightarrow>
      Inr (count_loop 0 (zip decoded_chars Y_chars)))"

section \<open>Encoding: the lookup table and \<open>_convert_label\<close>\<close>

text \<open>
  The table built in \<open>__init__\<close>: a \<open>tf.lookup.StaticHashTable\<close> initialised from the
  table file with the whole line as key and the 0-based line number as value, and
  \<open>blank_index\<close> as default value.  The file is given by its lines.  The default value
  becomes a 64-bit tensor first.  Then the lines are inserted one after the other: an
  empty line is refused, and so is a line that is already a key (it would get a second
  value); a file without any line is refused as well.
\<close>

record 'k hash_table =
  entries :: "('k \<times> int) list"
  default_value :: int

fun insert_lines ::
  "('c list \<times> int) list \<Rightarrow> int \<Rightarrow> 'c list list \<Rightarrow> error + ('c list \<times> int) list" where
  "insert_lines table_entries line_number [] = Inr table_entries"
| "insert_lines table_entries line_number (line # file_lines) =
     (if line = [] then Inl InvalidArgumentError
      else if map_of table_entries line \<noteq> None then Inl FailedPreconditionError
      else insert_lines (table_entries @ [(line, line_number)]) (line_number + 1) file_lines)"

definition StaticHashTable :: "'c list list \<Rightarrow> int \<Rightarrow> error + 'c list hash_table" where
  "StaticHashTable file_lines blank_index =
     (case convert_to_tensor DT_INT64 blank_index of
        Inl e \<Rightarrow> Inl e
      | Inr default_id \<Rightarrow>
          if file_lines = [] then Inl OutOfRangeError
          else (case insert_lines [] 0 file_lines of
                  Inl e \<Rightarrow> Inl e
                | Inr table_entries \<Rightarrow>
                    Inr \<lparr>entries = table_entries, default_value = default_id\<rparr>))"

definition lookup :: "'k hash_table \<Rightarrow> 'k \<Rightarrow> int" where
  "lookup table key = (case map_of (entries table) key of None \<Rightarrow> default_value table | Some v \<Rightarrow> v)"

text \<open>
  \<open>_convert_label\<close> on a batch: every label is split into its characters, every
  character is looked up, the ragged result becomes a sparse tensor (positions row by row,
  dense shape: number of rows and longest row, 64-bit as the ids of the table), and the
  values are cast to 32-bit signed integers, which wraps around.
\<close>

definition unicode_split :: "'c list \<Rightarrow> 'c list list" where
  "unicode_split label = map (\<lambda>c. [c]) label"

fun ragged_indices :: "nat \<Rightarrow> 'a list list \<Rightarrow> (nat \<times> nat) list" where
  "ragged_indices i [] = []"
| "ragged_indices i (row # rows) = map (Pair i) [0 ..< length row] @ ragged_indices (Suc i) rows"

definition to_sparse :: "int list list \<Rightarrow> sparse_tensor" where
  "to_sparse rows =
     \<lparr>indices = ragged_indices 0 rows,
      vals = concat rows,
      dense_shape = (length rows, foldr max (map length rows) 0),
      dtype = DT_INT64\<rparr>"

definition convert_label :: "'c list hash_table \<Rightarrow> 'img \<times> 'c list list \<Rightarrow> 'img \<times> sparse_tensor" where
  "convert_label table sample =
     (let image = fst sample; label = snd sample;
          chars = map unicode_split label;
          mapped_label = map (map (lookup table)) chars;
          sparse_label = to_sparse mapped_label;
          sparse_label = sparse_label\<lparr>vals := map cast_int32 (vals sparse_label),
                                      dtype := DT_INT32\<rparr>
      in (image, sparse_label))"

section \<open>The dataset pipeline of \<open>OCRDataLoader\<close>\<close>

text \<open>
  \<open>_decode_and_resize\<close>: the file is read, decoded as a JPEG image with one channel,
  converted to floats and resized.  The four image operations are one parameter
  \<open>read_image\<close> of the model, from the height, the width and the file name to the image
  or to the error that one of the operations raises; the label is passed on unchanged.
\<close>

definition decode_and_resize ::
  "(nat \<Rightarrow> nat \<Rightarrow> 'p \<Rightarrow> error + 'img) \<Rightarrow> nat \<Rightarrow> nat \<Rightarrow> 'p \<times> 'l \<Rightarrow> error + 'img \<times> 'l" where
  "decode_and_resize read_image image_height image_width sample =
     (case read_image image_height image_width (fst sample) of
        Inl e \<Rightarrow> Inl e
      | Inr img \<Rightarrow> Inr (img, snd sample))"

text \<open>
  \<open>tf.data.experimental.ignore_errors()\<close>: the elements whose computation raised are
  left out, the others are passed on in their order.
\<close>

fun ignore_errors :: "(error + 'a) list \<Rightarrow> 'a list" where
  "ignore_errors [] = []"
| "ignore_errors (Inl e # xs) = ignore_errors xs"
| "ignore_errors (Inr x # xs) = x # ignore_errors xs"

text \<open>
  \<open>dataset.batch(batch_size)\<close> with the default \<open>drop_remainder=False\<close>: consecutive
  groups of \<open>batch_size\<close> elements, and a last smaller group if elements remain.
\<close>

function batch :: "nat \<Rightarrow> 'a list \<Rightarrow> 'a list list" where
  "batch batch_size xs =
     (if batch_size = 0 \<or> xs = [] then []
      else take batch_size xs # batch batch_size (drop batch_size xs))"
  by pat_completeness auto
termination
  by (relation "measure (\<lambda>(batch_size, xs). length xs)") auto

declare batch.simps [simp del]

text \<open>
  One pass over the dataset built in \<open>__init__\<close>, after the optional shuffle: every
  sample is decoded, failures are ignored, the remaining samples are batched (a batch
  holds the images and the labels of its samples), and every batch gets its labels
  converted.
\<close>

definition epoch ::
  "(nat \<Rightarrow> nat \<Rightarrow> 'p \<Rightarrow> error + 'img) \<Rightarrow> 'c list hash_table \<Rightarrow> nat \<Rightarrow> nat \<Rightarrow> nat \<Rightarrow>
   ('p \<times> 'c list) list \<Rightarrow> ('img list \<times> sparse_tensor) list" where
  "epoch read_image table image_height image_width batch_size samples =
     map (convert_label table)
       (map (\<lambda>elements. (map fst elements, map snd elements))
         (batch batch_size
           (ignore_errors
             (map (decode_and_resize read_image image_height image_width) samples))))"

text \<open>
  The dataset of \<open>__init__\<close>, as the list of the batches that iterating over it
  delivers.  The two lists must have the same length and, for the file names to be
  strings, at least one element.  A batch size below 1 is refused.  With \<open>shuffle\<close>,
  every pass sees the samples in a new order, which the parameter \<open>shuffle_order\<close>
  gives for each pass; \<open>repeat\<close> is the number of passes.
\<close>

definition make_dataset ::
  "(nat \<Rightarrow> nat \<Rightarrow> 'p \<Rightarrow> error + 'img) \<Rightarrow> (nat \<Rightarrow> ('p \<times> 'c list) list \<Rightarrow> ('p \<times> 'c list) list) \<Rightarrow>
   'c list hash_table \<Rightarrow> nat \<Rightarrow> nat \<Rightarrow> 'p list \<Rightarrow> 'c list list \<Rightarrow> int \<Rightarrow> bool \<Rightarrow> nat \<Rightarrow>
   error + ('img list \<times> sparse_tensor) list" where
  "make_dataset read_image shuffle_order table image_height image_width imgpaths labels
       batch_size shuffle repeat =
     (if length imgpaths \<noteq> length labels \<or> imgpaths = [] then Inl ValueError
      else if batch_size \<le> 0 then Inl InvalidArgumentError
      else Inr (concat (map (\<lambda>pass.
                  epoch read_image table image_height image_width (nat batch_size)
                    (if shuffle then shuffle_order pass (zip imgpaths labels)
                     else zip imgpaths labels))
                [0 ..< repeat])))"

section \<open>Reading the annotation files: \<open>read_imagepaths_and_labels\<close>\<close>






















section \<open>Concrete inputs\<close>

definition vocab4 :: "string list" where
  "vocab4 = [''_'', ''a'', ''b'', ''c'']"

definition pred_batch :: sparse_tensor where
  "pred_batch = \<lparr>indices = [(0, 0), (0, 1), (1, 0)], vals = [1, 2, 3],
                 dense_shape = (2, 3), dtype = DT_INT64\<rparr>"

definition truth_batch :: sparse_tensor where
  "truth_batch = \<lparr>indices = [(0, 0), (0, 1), (1, 0), (1, 1)], vals = [1, 2, 3, 3],
                  dense_shape = (2, 3), dtype = DT_INT32\<rparr>"




definition ab_table :: "string hash_table" where
  "ab_table = \<lparr>entries = [(''a'', 0), (''b'', 1)], default_value = 0\<rparr>"



definition fails_at_3 :: "nat \<Rightarrow> nat \<Rightarrow> nat \<Rightarrow> error + nat" where
  "fails_at_3 image_height image_width filename =
     (if filename = 3 then Inl InvalidArgumentError else Inr filename)"

definition reversed :: "nat \<Rightarrow> 'a list \<Rightarrow> 'a list" where
  "reversed pass samples = rev samples"




section \<open>Properties of the decoder\<close>

lemma getitem_Inl: "getitem xs i = Inl e \<Longrightarrow> e = IndexError \<and> \<not> in_range xs i"
  by (simp add: getitem_def split: if_splits)

lemma getitem_out_of_range: "\<not> in_range xs i \<Longrightarrow> getitem xs i = Inl IndexError"
  by (simp add: getitem_def)

lemma chars_loop_snoc_blank_merge:
  "chars_loop t b True acc prev (xs @ [b]) = chars_loop t b True acc prev xs"
  by (induction xs arbitrary: acc prev) (simp_all split: sum.splits)

lemma chars_loop_snoc_blank_plain:
  "chars_loop t b False acc prev (xs @ [b]) = chars_loop t b False acc prev xs"
  by (induction xs arbitrary: acc prev) (simp_all split: sum.splits)

lemma chars_loop_snoc_blank:
  "chars_loop t b m acc prev (xs @ [b]) = chars_loop t b m acc prev xs"
  by (cases m) (simp_all add: chars_loop_snoc_blank_merge chars_loop_snoc_blank_plain)

lemma chars_loop_error_merge:
  "chars_loop t b True acc prev xs = Inl e \<Longrightarrow> e = IndexError"
  by (induction xs arbitrary: acc prev) (auto split: sum.splits if_splits dest: getitem_Inl)

lemma chars_loop_error_plain:
  "chars_loop t b False acc prev xs = Inl e \<Longrightarrow> e = IndexError"
  by (induction xs arbitrary: acc prev) (auto split: sum.splits if_splits dest: getitem_Inl)

lemma chars_loop_error: "chars_loop t b m acc prev xs = Inl e \<Longrightarrow> e = IndexError"
  by (cases m) (auto dest: chars_loop_error_merge chars_loop_error_plain)

lemma lines_loop_error: "lines_loop t b m acc inputs = Inl e \<Longrightarrow> e = IndexError"
  by (induction inputs arbitrary: acc) (auto split: sum.splits dest: chars_loop_error)


lemma lines_loop_append:
  "lines_loop t b m acc (xs @ ys) =
     (case lines_loop t b m acc xs of Inl e \<Rightarrow> Inl e | Inr acc' \<Rightarrow> lines_loop t b m acc' ys)"
  by (induction xs arbitrary: acc) (simp_all split: sum.splits)

lemma chars_loop_bad_id_merge:
  "i \<in> set xs \<Longrightarrow> i \<noteq> b \<Longrightarrow> \<not> in_range t i \<Longrightarrow> i \<noteq> prev \<Longrightarrow>
   chars_loop t b True acc prev xs = Inl IndexError"
proof (induction xs arbitrary: acc prev)
  case Nil
  then show ?case by simp
next
  case (Cons x xs)
  show ?case
  proof (cases "x = i")
    case True
    with Cons.prems show ?thesis by (simp add: getitem_out_of_range)
  next
    case False
    with Cons.prems have mem: "i \<in> set xs" by simp
    show ?thesis
    proof (cases "getitem t x")
      case (Inl e)
      then have "e = IndexError" by (simp add: getitem_Inl)
      with Inl False mem Cons.prems Cons.IH show ?thesis by simp
    next
      case (Inr s)
      with False mem Cons.prems Cons.IH show ?thesis by simp
    qed
  qed
qed

lemma chars_loop_bad_id_plain:
  "i \<in> set xs \<Longrightarrow> i \<noteq> b \<Longrightarrow> \<not> in_range t i \<Longrightarrow>
   chars_loop t b False acc prev xs = Inl IndexError"
proof (induction xs arbitrary: acc prev)
  case Nil
  then show ?case by simp
next
  case (Cons x xs)
  show ?case
  proof (cases "x = i")
    case True
    with Cons.prems show ?thesis by (simp add: getitem_out_of_range)
  next
    case False
    with Cons.prems have mem: "i \<in> set xs" by simp
    show ?thesis
    proof (cases "getitem t x")
      case (Inl e)
      then have "e = IndexError" by (simp add: getitem_Inl)
      with Inl False mem Cons.prems Cons.IH show ?thesis by simp
    next
      case (Inr s)
      with False mem Cons.prems Cons.IH show ?thesis by simp
    qed
  qed
qed

lemma lines_loop_bad_line:
  "line \<in> set inputs \<Longrightarrow> chars_loop t b m [] (- 1) line = Inl IndexError \<Longrightarrow>
   lines_loop t b m acc inputs = Inl IndexError"
proof (induction inputs arbitrary: acc)
  case Nil
  then show ?case by simp
next
  case (Cons l ls)
  show ?case
  proof (cases "chars_loop t b m [] (- 1) l")
    case (Inl e)
    then have "e = IndexError" by (rule chars_loop_error)
    with Inl show ?thesis by simp
  next
    case (Inr s)
    with Cons.prems have "line \<in> set ls" by auto
    with Inr Cons.prems Cons.IH show ?thesis by simp
  qed
qed

text \<open>
  Claim C3 says that an id out of the table's range contributes the empty string and that
  decoding never raises.  The code subscripts the table with no guard, so the claim fails
  (see the counterexample below).  What holds instead: an id outside the index range of
  the table that is not the blank id makes \<open>map_to_chars\<close> raise IndexError, whatever
  the other lines and ids are.  With \<open>merge_repeated\<close> set, the id \<open>-1\<close> is left out:
  at the start of a line it is swallowed by the initial \<open>previous_char\<close>.
\<close>

theorem out_of_range_id_raises:
  assumes "line \<in> set inputs" and "i \<in> set line" and "i \<noteq> blank_index"
    and "\<not> in_range table i" and "merge_repeated \<longrightarrow> i \<noteq> - 1"
  shows "map_to_chars inputs table blank_index merge_repeated = Inl IndexError"
proof -
  have "chars_loop table blank_index merge_repeated [] (- 1) line = Inl IndexError"
    using assms chars_loop_bad_id_merge [of i line blank_index table "- 1" "[]"]
      chars_loop_bad_id_plain [of i line blank_index table "[]" "- 1"]
    by (cases merge_repeated) simp_all
  with assms(1) show ?thesis
    unfolding map_to_chars_def by (rule lines_loop_bad_line)
qed

theorem out_of_range_id_raises_witness:
  "map_to_chars [[1, 0], [0, 7, 1]] [''_'', ''a''] 0 True = Inl IndexError"
  using out_of_range_id_raises [of "[0, 7, 1]" "[[1, 0], [0, 7, 1]]" 7 0 "[''_'', ''a'']" True]
  by (simp add: in_range_def)

text \<open>
  Claim C3 as stated fails: with a two-entry table, the single id 5 does not decode to the
  empty text, the call raises IndexError.
\<close>

theorem lookup_miss_counterexample:
  "map_to_chars [[5]] [''a'', ''b''] 0 False = Inl IndexError"
  by (simp add: map_to_chars_def getitem_def in_range_def)

text \<open>
  Claim C2, amended: with \<open>merge_repeated = True\<close>, for an id \<open>a\<close> that the table
  maps to the string \<open>s\<close>, that is not the blank id and is not \<open>-1\<close>, the line
  \<open>[a, a, a]\<close> decodes to \<open>s\<close> once, and \<open>[a, a, blank, a]\<close> and
  \<open>[a, blank, a]\<close> both decode to \<open>s\<close> twice: the blank becomes the previous id
  and separates the two occurrences.
\<close>

theorem merge_repeated_collapse:
  assumes "a \<noteq> blank_index" and "a \<noteq> - 1" and "getitem table a = Inr s"
  shows "map_to_chars [[a, a, a]] table blank_index True = Inr [s]
       \<and> map_to_chars [[a, a, blank_index, a]] table blank_index True = Inr [s @ s]
       \<and> map_to_chars [[a, blank_index, a]] table blank_index True = Inr [s @ s]"
  using assms by (simp add: map_to_chars_def)

theorem merge_repeated_collapse_witness:
  "map_to_chars [[5, 5, 5]] [''_'', ''a'', ''b'', ''c'', ''d'', ''e''] 0 True = Inr [''e'']
   \<and> map_to_chars [[5, 5, 0, 5]] [''_'', ''a'', ''b'', ''c'', ''d'', ''e''] 0 True = Inr [''ee'']
   \<and> map_to_chars [[5, 0, 5]] [''_'', ''a'', ''b'', ''c'', ''d'', ''e''] 0 True = Inr [''ee'']"
  using merge_repeated_collapse [of 5 0 "[''_'', ''a'', ''b'', ''c'', ''d'', ''e'']" "''e''"]
  by (simp add: getitem_def in_range_def)

text \<open>
  Claim C2 as stated (for every \<open>a\<close> other than the blank id) fails at \<open>a = -1\<close>,
  which subscripts the last entry of a Python list: \<open>[-1, -1, -1]\<close> decodes to the
  empty text instead of one character, and \<open>[-1, -1, blank, -1]\<close> to one character
  instead of two.
\<close>

theorem merge_repeated_counterexample:
  "(- 1 :: int) \<noteq> 0
   \<and> getitem [''x'', ''y''] (- 1) = Inr ''y''
   \<and> map_to_chars [[- 1, - 1, - 1]] [''x'', ''y''] 0 True = Inr ['''']
   \<and> map_to_chars [[- 1, - 1, 0, - 1]] [''x'', ''y''] 0 True = Inr [''y'']"
  by (simp add: map_to_chars_def getitem_def in_range_def)

text \<open>
  Claim C4: for every line, every position \<open>j\<close> of it that holds the blank id, and either
  value of \<open>merge_repeated\<close>, reading position \<open>j\<close> adds nothing to the text: the
  line read up to and including position \<open>j\<close> decodes to the same result as the line
  read up to position \<open>j\<close> excluded.
\<close>

theorem blank_never_emitted:
  assumes "j < length line" and "line ! j = blank_index"
  shows "map_to_chars [take (Suc j) line] table blank_index merge_repeated
       = map_to_chars [take j line] table blank_index merge_repeated"
proof -
  from assms have "take (Suc j) line = take j line @ [blank_index]"
    by (simp add: take_Suc_conv_app_nth)
  then show ?thesis
    by (simp add: map_to_chars_def chars_loop_snoc_blank)
qed

theorem blank_never_emitted_witness:
  "map_to_chars [take (Suc 2) [1, 1, 0, 2]] [''_'', ''a'', ''b''] 0 True = Inr [''a'']
   \<and> map_to_chars [take 2 [1, 1, 0, 2]] [''_'', ''a'', ''b''] 0 True = Inr [''a'']"
  using blank_never_emitted [of 2 "[1, 1, 0, 2]" 0 "[''_'', ''a'', ''b'']" True]
  by (simp add: map_to_chars_def getitem_def in_range_def)

text \<open>
  Claim C9: with \<open>merge_repeated = True\<close>, a first id equal to \<open>-1\<close> is skipped
  and leaves the loop state as it was: any line that starts with \<open>-1\<close>, anywhere in
  the input, decodes as the same line without that first id.
\<close>

theorem sentinel_collision:
  "map_to_chars (pre @ ((- 1) # line) # post) table blank_index True
   = map_to_chars (pre @ line # post) table blank_index True"
  by (simp add: map_to_chars_def lines_loop_append split: sum.splits)

section \<open>Properties of the scorer\<close>

lemma getitem_head: "getitem (x # xs) 0 = Inr x"
  by (simp add: getitem_def in_range_def)

lemma count_loop_filter:
  "count_loop c ps = c + int (length (filter (\<lambda>(p, y). p = y) ps))"
  by (induction c ps rule: count_loop.induct) simp_all





lemma map_and_count_steps:
  assumes "to_dense d0 b = Inr P" and "to_dense Y b = Inr T"
    and "map_to_chars P mapper b m = Inr ps" and "map_to_chars T mapper b m = Inr ts"
  shows "map_and_count (d0 # ds) Y mapper b m = Inr (count_loop 0 (zip ps ts))"
  using assms by (simp add: map_and_count_def getitem_head)

lemma pred_dense: "to_dense pred_batch 0 = Inr [[1, 2, 0], [3, 0, 0]]"
  by (simp add: to_dense_def convert_to_tensor_def in_int64_def valid_indices_def
      pred_batch_def index_less_def upt_rec)

lemma truth_dense: "to_dense truth_batch 0 = Inr [[1, 2, 0], [3, 3, 0]]"
  by (simp add: to_dense_def convert_to_tensor_def in_int64_def cast_int32_def
      valid_indices_def truth_batch_def index_less_def upt_rec)

lemma pred_chars: "map_to_chars [[1, 2, 0], [3, 0, 0]] vocab4 0 False = Inr [''ab'', ''c'']"
  by (simp add: map_to_chars_def getitem_def in_range_def vocab4_def)

lemma truth_chars: "map_to_chars [[1, 2, 0], [3, 3, 0]] vocab4 0 False = Inr [''ab'', ''cc'']"
  by (simp add: map_to_chars_def getitem_def in_range_def vocab4_def)

text \<open>
  Claim C5: \<open>map_and_count\<close> converts the first predicted sparse tensor and the ground
  truth to dense rows with the blank id as fill, decodes the rows of both, and returns the
  number of positions at which the decoded prediction equals the decoded truth.  For the
  vocabulary \<open>_ a b c\<close>, blank id 0 and no merging, the sparse batches with dense rows
  \<open>[[1,2,0],[3,0,0]]\<close> and \<open>[[1,2,0],[3,3,0]]\<close> decode to \<open>ab, c\<close> and
  \<open>ab, cc\<close>, and the count is 1.
\<close>

theorem exact_match_scoring:
  "(to_dense d0 blank_index = Inr P \<longrightarrow> to_dense Y blank_index = Inr T \<longrightarrow>
    map_to_chars P mapper blank_index merge_repeated = Inr ps \<longrightarrow>
    map_to_chars T mapper blank_index merge_repeated = Inr ts \<longrightarrow>
    map_and_count (d0 # ds) Y mapper blank_index merge_repeated
      = Inr (int (length (filter (\<lambda>(y_pred, y). y_pred = y) (zip ps ts)))))
   \<and> to_dense pred_batch 0 = Inr [[1, 2, 0], [3, 0, 0]]
   \<and> to_dense truth_batch 0 = Inr [[1, 2, 0], [3, 3, 0]]
   \<and> map_to_chars [[1, 2, 0], [3, 0, 0]] vocab4 0 False = Inr [''ab'', ''c'']
   \<and> map_to_chars [[1, 2, 0], [3, 3, 0]] vocab4 0 False = Inr [''ab'', ''cc'']
   \<and> map_and_count [pred_batch] truth_batch vocab4 0 False = Inr 1"
proof -
  have general: "map_and_count (d0 # ds) Y mapper blank_index merge_repeated
      = Inr (int (length (filter (\<lambda>(y_pred, y). y_pred = y) (zip ps ts))))"
    if "to_dense d0 blank_index = Inr P" "to_dense Y blank_index = Inr T"
      "map_to_chars P mapper blank_index merge_repeated = Inr ps"
      "map_to_chars T mapper blank_index merge_repeated = Inr ts"
    using map_and_count_steps [OF that] by (simp add: count_loop_filter)
  have "map_and_count [pred_batch] truth_batch vocab4 0 False = Inr 1"
    using map_and_count_steps [OF pred_dense truth_dense pred_chars truth_chars, of "[]"]
    by simp
  with general show ?thesis
    by (simp add: pred_dense truth_dense pred_chars truth_chars)
qed

theorem exact_match_scoring_witness:
  "map_and_count [pred_batch, truth_batch] truth_batch vocab4 0 False = Inr 1"
proof -
  have "map_and_count (pred_batch # [truth_batch]) truth_batch vocab4 0 False
      = Inr (int (length (filter (\<lambda>(y_pred, y). y_pred = y) (zip [''ab'', ''c''] [''ab'', ''cc'']))))"
    using exact_match_scoring [of pred_batch 0 "[[1, 2, 0], [3, 0, 0]]" truth_batch
        "[[1, 2, 0], [3, 3, 0]]" vocab4 False "[''ab'', ''c'']" "[''ab'', ''cc'']" "[truth_batch]"]
    by (simp add: pred_dense truth_dense pred_chars truth_chars)
  then show ?thesis by simp
qed








section \<open>Properties of the encoder\<close>

lemma cast_int32_id: "- (2 ^ 31) \<le> v \<Longrightarrow> v < 2 ^ 31 \<Longrightarrow> cast_int32 v = v"
  by (simp add: cast_int32_def signed_of_int signed_take_bit_int_eq_self)

lemma ab_table_built: "StaticHashTable [''a'', ''b''] 0 = Inr ab_table"
  by (simp add: StaticHashTable_def convert_to_tensor_def in_int64_def ab_table_def)

lemma convert_label_example: "snd (convert_label ab_table ((), [''ab'', ''b'']))
   = \<lparr>indices = [(0, 0), (0, 1), (1, 0)], vals = [0, 1, 1], dense_shape = (2, 2),
      dtype = DT_INT32\<rparr>"
  by (simp add: convert_label_def to_sparse_def unicode_split_def lookup_def ab_table_def upt_rec cast_int32_def)

subsection \<open>lookup\<close>

lemma insert_lines_Inr:
  "insert_lines es (int k) ls = Inr r \<Longrightarrow>
   distinct ls \<and> set ls \<inter> fst ` set es = {} \<and> [] \<notin> set ls
   \<and> r = es @ zip ls (map int [k ..< k + length ls])"
proof (induction ls arbitrary: es k)
  case Nil
  then show ?case by simp
next
  case (Cons l ls)
  from Cons.prems have l: "l \<noteq> []" "map_of es l = None"
    and rest: "insert_lines (es @ [(l, int k)]) (int (Suc k)) ls = Inr r"
    by (simp_all split: if_splits add: add.commute)
  from Cons.IH [OF rest] have d: "distinct ls"
    and i: "set ls \<inter> fst ` set (es @ [(l, int k)]) = {}" and e: "[] \<notin> set ls"
    and r: "r = (es @ [(l, int k)]) @ zip ls (map int [Suc k ..< Suc k + length ls])"
    by simp_all
  from l(2) have "l \<notin> fst ` set es"
    by (simp add: map_of_eq_None_iff)
  with d i e l(1) have "distinct (l # ls) \<and> set (l # ls) \<inter> fst ` set es = {} \<and> [] \<notin> set (l # ls)"
    by auto
  moreover have "[k ..< k + length (l # ls)] = k # [Suc k ..< Suc k + length ls]"
    by (simp add: upt_conv_Cons del: upt_Suc)
  then have "r = es @ zip (l # ls) (map int [k ..< k + length (l # ls)])"
    using r by (simp del: upt_Suc)
  ultimately show ?case by simp
qed

lemma StaticHashTable_Inr:
  "StaticHashTable file_lines blank_index = Inr table \<Longrightarrow>
   distinct file_lines \<and> default_value table = blank_index
   \<and> entries table = zip file_lines (map int [0 ..< length file_lines])"
proof -
  assume a: "StaticHashTable file_lines blank_index = Inr table"
  then obtain es where es: "insert_lines [] (int 0) file_lines = Inr es"
    and t: "table = \<lparr>entries = es, default_value = blank_index\<rparr>"
    by (auto simp: StaticHashTable_def convert_to_tensor_def split: if_splits sum.splits)
  from insert_lines_Inr [OF es] t show ?thesis by simp
qed

lemma lookup_present:
  assumes "StaticHashTable file_lines blank_index = Inr table" and "i < length file_lines"
  shows "lookup table (file_lines ! i) = int i"
proof -
  from assms(1) have d: "distinct file_lines"
    and e: "entries table = zip file_lines (map int [0 ..< length file_lines])"
    by (simp_all add: StaticHashTable_Inr)
  have "map_of (zip file_lines (map int [0 ..< length file_lines])) (file_lines ! i)
      = Some (map int [0 ..< length file_lines] ! i)"
    using d assms(2) by (intro map_of_zip_nth) simp_all
  with assms(2) e show ?thesis by (simp add: lookup_def)
qed

lemma lookup_absent:
  assumes "StaticHashTable file_lines blank_index = Inr table" and "key \<notin> set file_lines"
  shows "lookup table key = blank_index"
proof -
  from assms(1) have e: "entries table = zip file_lines (map int [0 ..< length file_lines])"
    and b: "default_value table = blank_index"
    by (simp_all add: StaticHashTable_Inr)
  have n: "map_of (entries table) key = None"
    unfolding e using assms(2) by simp
  show ?thesis by (simp add: lookup_def n b)
qed

text \<open>
  Claim C8: once the table is built from the lines of the table file, looking up the key
  on line \<open>i\<close> returns \<open>i\<close> (the 0-based line number, whatever \<open>blank_index\<close> is),
  and looking up a key that is on no line returns \<open>blank_index\<close>; \<open>lookup\<close> has no
  failing case.
\<close>

theorem vocabulary_lookup:
  assumes "StaticHashTable file_lines blank_index = Inr table"
  shows "(i < length file_lines \<longrightarrow> lookup table (file_lines ! i) = int i)
       \<and> (key \<notin> set file_lines \<longrightarrow> lookup table key = blank_index)"
  using assms by (simp add: lookup_present lookup_absent)

theorem vocabulary_lookup_witness:
  "lookup ab_table ''b'' = 1 \<and> lookup ab_table ''z'' = 0"
  using vocabulary_lookup [OF ab_table_built, of 1 "''z''"] by simp

subsection \<open>sparse and dense\<close>

lemma ragged_indices_length: "length (ragged_indices i rows) = length (concat rows)"
  by (induction rows arbitrary: i) simp_all

lemma ragged_indices_mem:
  "p \<in> set (ragged_indices i rows) \<Longrightarrow>
   i \<le> fst p \<and> fst p < i + length rows \<and> snd p < length (rows ! (fst p - i))"
proof (induction rows arbitrary: i)
  case Nil
  then show ?case by simp
next
  case (Cons row rows)
  from Cons.prems have "p \<in> Pair i ` {0 ..< length row} \<or> p \<in> set (ragged_indices (Suc i) rows)"
    by auto
  then show ?case
  proof
    assume "p \<in> Pair i ` {0 ..< length row}"
    then show ?thesis by auto
  next
    assume "p \<in> set (ragged_indices (Suc i) rows)"
    from Cons.IH [OF this] show ?thesis
      by (auto simp: Suc_diff_le)
  qed
qed

lemma row_sorted: "sorted_wrt index_less (map (Pair i) [0 ..< n])"
  by (simp add: sorted_wrt_map index_less_def)

lemma ragged_indices_sorted: "sorted_wrt index_less (ragged_indices i rows)"
proof (induction rows arbitrary: i)
  case Nil
  show ?case by simp
next
  case (Cons row rows)
  have "index_less (i, j) q" if "q \<in> set (ragged_indices (Suc i) rows)" for j q
    using ragged_indices_mem [OF that] by (simp add: index_less_def)
  then show ?case
    by (auto simp: sorted_wrt_append row_sorted Cons.IH)
qed

lemma length_le_bound: "row \<in> set rows \<Longrightarrow> length row \<le> foldr max (map length rows) 0"
  by (induction rows) auto

lemma to_sparse_valid: "valid_indices ((to_sparse rows)\<lparr>dtype := dt\<rparr>)"
proof -
  have "fst p < length rows \<and> snd p < foldr max (map length rows) 0"
    if "p \<in> set (ragged_indices 0 rows)" for p
  proof -
    from ragged_indices_mem [OF that]
    have a: "fst p < length rows" and b: "snd p < length (rows ! fst p)" by simp_all
    from a have "rows ! fst p \<in> set rows" by simp
    from length_le_bound [OF this] a b show ?thesis by simp
  qed
  then show ?thesis
    by (simp add: valid_indices_def to_sparse_def ragged_indices_length ragged_indices_sorted
        list_all_iff)
qed

lemma row_lookup:
  "map_of (zip (map (Pair i) [0 ..< length row]) row) (i', j)
     = (if i' = i \<and> j < length row then Some (row ! j) else None)"
proof (cases "i' = i \<and> j < length row")
  case True
  have "map_of (zip (map (Pair i) [0 ..< length row]) row) (map (Pair i) [0 ..< length row] ! j)
      = Some (row ! j)"
    using True by (intro map_of_zip_nth) (simp_all add: distinct_map inj_on_def)
  with True show ?thesis by simp
next
  case False
  then have "(i', j) \<notin> set (map (Pair i) [0 ..< length row])" by auto
  then have n: "map_of (zip (map (Pair i) [0 ..< length row]) row) (i', j) = None"
    by (simp del: set_map)
  from False show ?thesis unfolding n by auto
qed

lemma ragged_lookup:
  "map_of (zip (ragged_indices i rows) (concat rows)) (i + k, j)
     = (if k < length rows \<and> j < length (rows ! k) then Some (rows ! k ! j) else None)"
proof (induction rows arbitrary: i k)
  case Nil
  show ?case by simp
next
  case (Cons row rows)
  show ?case
  proof (cases k)
    case 0
    have "map_of (zip (ragged_indices (Suc i) rows) (concat rows)) (i, j) = None"
    proof -
      have "(i, j) \<notin> set (ragged_indices (Suc i) rows)"
        using ragged_indices_mem [of "(i, j)" "Suc i" rows] by auto
      then show ?thesis by (simp add: ragged_indices_length)
    qed
    with 0 show ?thesis
      by (simp add: row_lookup map_add_def)
  next
    case (Suc k')
    have "map_of (zip (ragged_indices (Suc i) rows) (concat rows)) (Suc i + k', j)
        = (if k' < length rows \<and> j < length (rows ! k') then Some (rows ! k' ! j) else None)"
      by (rule Cons.IH)
    with Suc show ?thesis
      by (simp add: row_lookup map_add_def)
  qed
qed

lemma to_dense_to_sparse:
  assumes "convert_to_tensor dt default_id = Inr d"
  shows "to_dense ((to_sparse rows)\<lparr>dtype := dt\<rparr>) default_id
     = Inr (map (\<lambda>row. row @ replicate (foldr max (map length rows) 0 - length row) d) rows)"
proof -
  let ?m = "foldr max (map length rows) 0"
  have cell: "(case map_of (zip (ragged_indices 0 rows) (concat rows)) (k, j) of
                 None \<Rightarrow> d | Some v \<Rightarrow> v)
            = (rows ! k @ replicate (?m - length (rows ! k)) d) ! j"
    if "k < length rows" "j < ?m" for k j
    using that ragged_lookup [of 0 rows k j] by (simp add: nth_append)
  have row: "map (\<lambda>j. case map_of (zip (ragged_indices 0 rows) (concat rows)) (k, j) of
                 None \<Rightarrow> d | Some v \<Rightarrow> v) [0 ..< ?m]
            = rows ! k @ replicate (?m - length (rows ! k)) d"
    if "k < length rows" for k
  proof (rule nth_equalityI)
    from that have "rows ! k \<in> set rows" by simp
    from length_le_bound [OF this]
    show "length (map (\<lambda>j. case map_of (zip (ragged_indices 0 rows) (concat rows)) (k, j) of
                 None \<Rightarrow> d | Some v \<Rightarrow> v) [0 ..< ?m])
        = length (rows ! k @ replicate (?m - length (rows ! k)) d)"
      by simp
  next
    fix j
    assume "j < length (map (\<lambda>j. case map_of (zip (ragged_indices 0 rows) (concat rows)) (k, j) of
                 None \<Rightarrow> d | Some v \<Rightarrow> v) [0 ..< ?m])"
    then have "j < ?m" by simp
    with that cell show "map (\<lambda>j. case map_of (zip (ragged_indices 0 rows) (concat rows)) (k, j) of
                 None \<Rightarrow> d | Some v \<Rightarrow> v) [0 ..< ?m] ! j
        = (rows ! k @ replicate (?m - length (rows ! k)) d) ! j"
      by simp
  qed
  have "map (\<lambda>i. map (\<lambda>j. case map_of (zip (ragged_indices 0 rows) (concat rows)) (i, j) of
                 None \<Rightarrow> d | Some v \<Rightarrow> v) [0 ..< ?m]) [0 ..< length rows]
      = map (\<lambda>row. row @ replicate (?m - length row) d) rows"
    by (rule nth_equalityI) (simp_all add: row)
  then show ?thesis
    using to_sparse_valid [where rows = rows and dt = dt] assms by (simp add: to_dense_def to_sparse_def)
qed

subsection \<open>round trip\<close>

lemma chars_loop_padding:
  "chars_loop t b m acc prev (row @ replicate k b) = chars_loop t b m acc prev row"
proof (induction k)
  case 0
  show ?case by simp
next
  case (Suc k)
  have "row @ replicate (Suc k) b = (row @ replicate k b) @ [b]"
    by (simp add: replicate_append_same)
  then show ?case
    by (simp only: chars_loop_snoc_blank Suc.IH)
qed

lemma lines_loop_cong:
  "\<forall>row \<in> set rows. chars_loop t b m [] (- 1) (f row) = chars_loop t b m [] (- 1) row \<Longrightarrow>
   lines_loop t b m acc (map f rows) = lines_loop t b m acc rows"
  by (induction rows arbitrary: acc) (simp_all split: sum.splits)

lemma chars_loop_round_trip:
  "\<forall>c \<in> set label. f c \<noteq> b \<and> getitem t (f c) = Inr [c] \<Longrightarrow>
   chars_loop t b False acc prev (map f label) = Inr (acc @ label)"
  by (induction label arbitrary: acc prev) simp_all

lemma lines_loop_round_trip:
  "\<forall>label \<in> set labels. \<forall>c \<in> set label. f c \<noteq> b \<and> getitem t (f c) = Inr [c] \<Longrightarrow>
   lines_loop t b False acc (map (map f) labels) = Inr (acc @ labels)"
  by (induction labels arbitrary: acc) (simp_all add: chars_loop_round_trip)

text \<open>
  Claim C1, amended: for a blank id that fits into 32 bits, a table of at most \<open>2^31\<close>
  lines and a batch of labels whose characters are all lines of the table file, none of
  them the line numbered \<open>blank_index\<close>, encoding the batch with \<open>_convert_label\<close>,
  making it dense with \<open>blank_index\<close> as fill and decoding it with
  \<open>merge_repeated = False\<close> against the lines of the table file gives back the labels.
\<close>

theorem round_trip:
  assumes "StaticHashTable file_lines blank_index = Inr table"
    and "- (2 ^ 31) \<le> blank_index" and "blank_index < 2 ^ 31"
    and "length file_lines \<le> 2 ^ 31"
    and "\<forall>label \<in> set labels. \<forall>c \<in> set label.
           [c] \<in> set file_lines \<and> lookup table [c] \<noteq> blank_index"
  shows "\<exists>rows. to_dense (snd (convert_label table (images, labels))) blank_index = Inr rows
           \<and> map_to_chars rows file_lines blank_index False = Inr labels"
proof -
  define f where "f c = lookup table [c]" for c
  define mapped where "mapped = map (map f) labels"
  have char: "f c \<noteq> blank_index \<and> getitem file_lines (f c) = Inr [c] \<and> cast_int32 (f c) = f c"
    if "label \<in> set labels" "c \<in> set label" for label c
  proof -
    from assms(5) that have mem: "[c] \<in> set file_lines" and nb: "f c \<noteq> blank_index"
      by (auto simp: f_def)
    from mem obtain i where i: "i < length file_lines" "file_lines ! i = [c]"
      by (auto simp: in_set_conv_nth)
    with lookup_present [OF assms(1), of i] have fi: "f c = int i"
      by (simp add: f_def)
    from i(1) assms(4) have "int i < 2 ^ 31" by simp
    with fi i nb show ?thesis
      by (simp add: getitem_def in_range_def cast_int32_id)
  qed
  have "map cast_int32 (concat mapped) = concat mapped"
    by (rule map_idI) (auto simp: mapped_def char)
  moreover have "(\<lambda>c. lookup table [c]) = f"
    by (simp add: f_def fun_eq_iff)
  ultimately have conv: "snd (convert_label table (images, labels))
      = (to_sparse mapped)\<lparr>dtype := DT_INT32\<rparr>"
    by (simp add: convert_label_def mapped_def unicode_split_def to_sparse_def comp_def Let_def)
  have fill: "convert_to_tensor DT_INT32 blank_index = Inr blank_index"
    using assms(2,3) by (simp add: convert_to_tensor_def in_int64_def cast_int32_id)
  let ?pad = "\<lambda>row. row @ replicate (foldr max (map length mapped) 0 - length row) blank_index"
  have dense: "to_dense ((to_sparse mapped)\<lparr>dtype := DT_INT32\<rparr>) blank_index
      = Inr (map ?pad mapped)"
    using fill by (rule to_dense_to_sparse)
  have "lines_loop file_lines blank_index False [] (map ?pad mapped)
      = lines_loop file_lines blank_index False [] mapped"
    by (rule lines_loop_cong) (simp add: chars_loop_padding)
  also have "\<dots> = Inr ([] @ labels)"
    unfolding mapped_def by (rule lines_loop_round_trip) (simp add: char)
  finally have "map_to_chars (map ?pad mapped) file_lines blank_index False = Inr labels"
    by (simp add: map_to_chars_def)
  with conv dense show ?thesis by simp
qed

theorem round_trip_witness:
  "\<exists>rows. to_dense (snd (convert_label ab_table ((), [''b'', ''bb'']))) 0 = Inr rows
     \<and> map_to_chars rows [''a'', ''b''] 0 False = Inr [''b'', ''bb'']"
  using round_trip [OF ab_table_built, of "[''b'', ''bb'']" "()"]
  by (simp add: lookup_def ab_table_def)

text \<open>
  Claim C1 as stated fails for a character that is in the vocabulary on the line numbered
  \<open>blank_index\<close>: with the table \<open>a, b\<close> and blank id 0, the label \<open>a\<close> is encoded
  as \<open>[0]\<close> and decoded as the empty text.
\<close>

theorem round_trip_counterexample:
  "StaticHashTable [''a'', ''b''] 0 = Inr ab_table
   \<and> to_dense (snd (convert_label ab_table ((), [''a'']))) 0 = Inr [[0]]
   \<and> map_to_chars [[0]] [''a'', ''b''] 0 False = Inr [[]]"
  by (simp add: ab_table_built convert_label_def to_sparse_def unicode_split_def lookup_def
      ab_table_def cast_int32_def to_dense_def convert_to_tensor_def in_int64_def
      valid_indices_def index_less_def upt_rec map_to_chars_def)
section \<open>Properties of the pipeline\<close>

lemma batch_Nil: "batch n [] = []"
  by (simp add: batch.simps)

lemma batch_step: "0 < n \<Longrightarrow> xs \<noteq> [] \<Longrightarrow> batch n xs = take n xs # batch n (drop n xs)"
  by (subst batch.simps) simp

lemma batch_lengths:
  "0 < k \<Longrightarrow> map length (batch k xs)
     = replicate (length xs div k) k @ (if length xs mod k = 0 then [] else [length xs mod k])"
proof (induction k xs rule: batch.induct)
  case (1 k xs)
  show ?case
  proof (cases "xs = []")
    case True
    then show ?thesis by (simp add: batch_Nil)
  next
    case False
    with "1.prems" have step: "batch k xs = take k xs # batch k (drop k xs)"
      by (simp add: batch_step)
    from 1 False have ih: "map length (batch k (drop k xs))
        = replicate ((length xs - k) div k) k
          @ (if (length xs - k) mod k = 0 then [] else [(length xs - k) mod k])"
      by simp
    show ?thesis
    proof (cases "length xs < k")
      case True
      with False "1.prems" show ?thesis
        by (simp add: step batch_Nil)
    next
      case False
      then have le: "k \<le> length xs" by simp
      from le "1.prems" have d: "length xs div k = Suc ((length xs - k) div k)"
        by (simp add: le_div_geq)
      from le have m: "length xs mod k = (length xs - k) mod k"
        by (simp add: le_mod_geq)
      from le show ?thesis
        by (simp add: step ih d m)
    qed
  qed
qed

lemma batch_nth:
  "0 < k \<Longrightarrow> i < length (batch k xs) \<Longrightarrow> batch k xs ! i = take k (drop (k * i) xs)"
proof (induction k xs arbitrary: i rule: batch.induct)
  case (1 k xs)
  show ?case
  proof (cases "xs = []")
    case True
    with "1.prems" show ?thesis by (simp add: batch_Nil)
  next
    case False
    with "1.prems" have step: "batch k xs = take k xs # batch k (drop k xs)"
      by (simp add: batch_step)
    show ?thesis
    proof (cases i)
      case 0
      with step show ?thesis by simp
    next
      case (Suc j)
      with "1.prems" step have "j < length (batch k (drop k xs))" by simp
      with "1.IH" [of j] "1.prems" False
      have "batch k (drop k xs) ! j = take k (drop (k * j) (drop k xs))" by simp
      with Suc step show ?thesis by (simp add: add.commute)
    qed
  qed
qed

lemma concat_batch: "0 < n \<Longrightarrow> concat (batch n xs) = xs"
proof (induction n xs rule: batch.induct)
  case (1 n xs)
  show ?case
  proof (cases "xs = []")
    case True
    then show ?thesis by (simp add: batch_Nil)
  next
    case False
    with 1 show ?thesis by (simp add: batch_step)
  qed
qed

lemma ignore_errors_survivors:
  "ignore_errors (map (decode_and_resize read_image h w) samples)
     = map (\<lambda>s. (projr (read_image h w (fst s)), snd s))
         (filter (\<lambda>s. \<not> isl (read_image h w (fst s))) samples)"
proof (induction samples)
  case Nil
  show ?case by simp
next
  case (Cons s samples)
  then show ?case
    by (cases "read_image h w (fst s)") (simp_all add: decode_and_resize_def)
qed

lemma survivors_length:
  "length (filter (\<lambda>s. \<not> P s) xs) = length xs - length (filter P xs)"
  using sum_length_filter_compl [of P xs] by simp

lemma convert_label_fst: "fst (convert_label table (images, labels)) = images"
  by (simp add: convert_label_def Let_def)

lemma convert_label_rows:
  "fst (dense_shape (snd (convert_label table (images, labels)))) = length labels"
  by (simp add: convert_label_def Let_def to_sparse_def)

lemma convert_label_snd:
  "snd (convert_label table (images, labels)) = snd (convert_label table (other, labels))"
  by (simp add: convert_label_def Let_def)

text \<open>
  Claim C6, amended: for 5 samples, batch size 2, no shuffle and one pass, the dataset
  delivers the samples whose image could be read, in their order, in consecutive batches
  of 2: batch \<open>i\<close> holds the surviving samples \<open>2 i\<close> and \<open>2 i + 1\<close> (the last batch
  only one sample, when their number is odd).  The number of samples delivered is 5 minus
  the number of samples that failed, the batch sizes are \<open>[2, 2, 1]\<close> when no sample
  failed, and the labels of a batch have as many rows as the batch has images, so nothing
  stands in for a dropped sample.
\<close>

theorem batching_after_drops:
  assumes "length imgpaths = 5" and "length labels = 5"
    and "samples = zip imgpaths labels"
    and "failed = length (filter (\<lambda>s. isl (read_image h w (fst s))) samples)"
    and "survivors = map (\<lambda>s. (projr (read_image h w (fst s)), snd s))
                       (filter (\<lambda>s. \<not> isl (read_image h w (fst s))) samples)"
  shows "\<exists>batches.
           make_dataset read_image shuffle_order table h w imgpaths labels 2 False 1 = Inr batches
         \<and> length survivors = 5 - failed
         \<and> concat (map fst batches) = map fst survivors
         \<and> (\<forall>i < length batches.
              batches ! i = convert_label table (map fst (take 2 (drop (2 * i) survivors)),
                                                 map snd (take 2 (drop (2 * i) survivors))))
         \<and> map (length \<circ> fst) batches
             = replicate ((5 - failed) div 2) 2 @ (if even (5 - failed) then [] else [1])
         \<and> (failed = 0 \<longrightarrow> map (length \<circ> fst) batches = [2, 2, 1])
         \<and> (\<forall>b \<in> set batches. fst (dense_shape (snd b)) = length (fst b))"
proof -
  define chunks where "chunks = batch 2 survivors"
  define batches where
    "batches = map (convert_label table)
                 (map (\<lambda>elements. (map fst elements, map snd elements)) chunks)"
  have n: "length samples = 5"
    using assms(1-3) by simp
  have len: "length survivors = 5 - failed"
    unfolding assms(4,5) by (simp add: survivors_length n)
  have surv: "ignore_errors (map (decode_and_resize read_image h w) samples) = survivors"
    unfolding assms(5) by (rule ignore_errors_survivors)
  have "imgpaths \<noteq> []"
    using assms(1) by auto
  then have made: "make_dataset read_image shuffle_order table h w imgpaths labels 2 False 1
      = Inr batches"
    using assms(1,2) surv
    by (simp add: make_dataset_def epoch_def batches_def chunks_def assms(3))
  have "map fst batches = map (map fst) chunks"
    by (simp add: batches_def convert_label_fst)
  then have "concat (map fst batches) = map fst (concat chunks)"
    by (simp add: map_concat)
  then have images: "concat (map fst batches) = map fst survivors"
    by (simp add: chunks_def concat_batch)
  have content: "batches ! i
      = convert_label table (map fst (take 2 (drop (2 * i) survivors)),
                             map snd (take 2 (drop (2 * i) survivors)))"
    if "i < length batches" for i
  proof -
    from that have "i < length (batch 2 survivors)"
      by (simp add: batches_def chunks_def)
    then have "chunks ! i = take 2 (drop (2 * i) survivors)"
      unfolding chunks_def by (intro batch_nth) simp_all
    with that show ?thesis
      by (simp add: batches_def)
  qed
  have "map (length \<circ> fst) batches = map length chunks"
    by (simp add: batches_def convert_label_fst comp_def)
  also have "\<dots> = replicate (length survivors div 2) 2
                   @ (if length survivors mod 2 = 0 then [] else [length survivors mod 2])"
    unfolding chunks_def by (rule batch_lengths) simp
  also have "\<dots> = replicate ((5 - failed) div 2) 2 @ (if even (5 - failed) then [] else [1])"
    by (simp add: len even_iff_mod_2_eq_zero)
  finally have sizes: "map (length \<circ> fst) batches
      = replicate ((5 - failed) div 2) 2 @ (if even (5 - failed) then [] else [1])" .
  have d: "(5 - (0::nat)) div 2 = 2"
    by simp
  have r: "replicate 2 (2::nat) = [2, 2]"
    by (simp add: numeral_2_eq_2)
  have "replicate ((5 - (0::nat)) div 2) (2::nat) = [2, 2]"
    by (simp only: d r)
  with sizes have none: "failed = 0 \<longrightarrow> map (length \<circ> fst) batches = [2, 2, 1]"
    by simp
  have rows: "fst (dense_shape (snd b)) = length (fst b)" if "b \<in> set batches" for b
    using that by (auto simp: batches_def convert_label_rows convert_label_fst)
  have c: "\<forall>i < length batches.
              batches ! i = convert_label table (map fst (take 2 (drop (2 * i) survivors)),
                                                 map snd (take 2 (drop (2 * i) survivors)))"
    using content by simp
  have rw: "\<forall>b \<in> set batches. fst (dense_shape (snd b)) = length (fst b)"
    using rows by simp
  from made len images c sizes none rw show ?thesis
    by (intro exI [of _ batches] conjI)
qed

theorem batching_after_drops_witness:
  "\<exists>batches.
     make_dataset fails_at_3 reversed ab_table 32 100 [0, 1, 2, 3, 4]
       [''a'', ''b'', ''ab'', ''b'', ''ba''] 2 False 1 = Inr batches
     \<and> concat (map fst batches) = [0, 1, 2, 4]
     \<and> map (length \<circ> fst) batches = [2, 2]"
proof -
  have l1: "length [0, 1, 2, 3, 4 :: nat] = 5"
    by simp
  have l2: "length [''a'', ''b'', ''ab'', ''b'', ''ba''] = 5"
    by simp
  have f: "1 = length (filter (\<lambda>s. isl (fails_at_3 32 100 (fst s)))
                 (zip [0, 1, 2, 3, 4] [''a'', ''b'', ''ab'', ''b'', ''ba'']))"
    by (simp add: fails_at_3_def)
  have s: "[(0, ''a''), (1, ''b''), (2, ''ab''), (4, ''ba'')]
      = map (\<lambda>s. (projr (fails_at_3 32 100 (fst s)), snd s))
          (filter (\<lambda>s. \<not> isl (fails_at_3 32 100 (fst s)))
            (zip [0, 1, 2, 3, 4] [''a'', ''b'', ''ab'', ''b'', ''ba'']))"
    by (simp add: fails_at_3_def)
  have d: "(5 - 1) div 2 = (2::nat)"
    by simp
  have r: "replicate 2 (2::nat) = [2, 2]"
    by (simp add: numeral_2_eq_2)
  from batching_after_drops [where shuffle_order = reversed and table = ab_table
      and read_image = fails_at_3 and h = 32 and w = 100
      and imgpaths = "[0, 1, 2, 3, 4]" and labels = "[''a'', ''b'', ''ab'', ''b'', ''ba'']",
      OF l1 l2 refl f s]
  obtain batches where
    "make_dataset fails_at_3 reversed ab_table 32 100 [0, 1, 2, 3, 4]
       [''a'', ''b'', ''ab'', ''b'', ''ba''] 2 False 1 = Inr batches"
    and "concat (map fst batches) = map fst [(0::nat, ''a''), (1, ''b''), (2, ''ab''), (4, ''ba'')]"
    and "map (length \<circ> fst) batches
           = replicate ((5 - 1) div 2) 2 @ (if even (5 - (1::nat)) then [] else [1])"
    by blast
  then show ?thesis
    by (simp add: d r)
qed

text \<open>
  Claim C6 as stated fails when a sample fails: with 5 samples of which the one at index 3
  cannot be decoded, the pass yields two batches of 2 samples each and no batch of size 1.
\<close>

theorem batching_counterexample:
  "make_dataset fails_at_3 reversed ab_table 32 100 [0, 1, 2, 3, 4]
     [''a'', ''b'', ''ab'', ''b'', ''ba''] 2 False 1
   = Inr [([0, 1], \<lparr>indices = [(0, 0), (1, 0)], vals = [0, 1],
                    dense_shape = (2, 1), dtype = DT_INT32\<rparr>),
          ([2, 4], \<lparr>indices = [(0, 0), (0, 1), (1, 0), (1, 1)], vals = [0, 1, 1, 0],
                    dense_shape = (2, 2), dtype = DT_INT32\<rparr>)]"
  by (simp add: make_dataset_def epoch_def fails_at_3_def decode_and_resize_def
      batch_step batch_Nil convert_label_def to_sparse_def unicode_split_def lookup_def
      ab_table_def cast_int32_def upt_rec)

section \<open>Properties of the parser\<close>



















end
